theory Spec2Isabelle
  imports Complex_Main
begin

section \<open>Recycle Cam: label matching, temporal smoothing and confidence display\<close>

text \<open>
  A shallow embedding of \<^verbatim>\<open>src/app.js\<close> and \<^verbatim>\<open>src/mappings.js\<close>.

  Conventions of the embedding.
  \<^item> A JavaScript string is a list of code units. The embedding uses the 8-bit type
    \<^typ>\<open>char\<close>, read as the code units U+0000 to U+00FF (ASCII and Latin-1), so every
    string literal of the sources that is a label, a pattern or a display name is a HOL
    string literal. Glyphs outside that range (the emoji icons, the em dash placeholder) are
    constructors of small datatypes.
  \<^item> A JavaScript number is modelled as an exact \<^typ>\<open>real\<close>: rounding of IEEE doubles,
    NaN and the infinities are not modelled, and the one place where the code divides by a
    canvas area that may be zero has a result of its own.
  \<^item> The DOM elements the code writes to are fields of the record of the application state.
\<close>

subsection \<open>Strings\<close>

text \<open>
  \<^verbatim>\<open>String.prototype.toLowerCase\<close> on one code unit of the range: A-Z and the Latin-1
  capitals U+00C0-U+00DE (without the multiplication sign U+00D7) move up by 32, every
  other code unit of the range is unchanged.
\<close>

definition toLowerCaseUnit :: "char \<Rightarrow> char" where
  "toLowerCaseUnit c =
     (let n = (of_char c :: nat)
      in if (65 \<le> n \<and> n \<le> 90) \<or> (192 \<le> n \<and> n \<le> 222 \<and> n \<noteq> 215)
         then char_of (n + 32) else c)"

definition toLowerCase :: "string \<Rightarrow> string" where
  "toLowerCase s = map toLowerCaseUnit s"

text \<open>
  \<^verbatim>\<open>String.prototype.toUpperCase\<close> on one code unit: a-z and the Latin-1 small letters
  U+00E0-U+00FE (without the division sign U+00F7) move down by 32, and the sharp s U+00DF
  becomes the two code units \<^verbatim>\<open>SS\<close>. The upper-case forms of U+00B5 (micro sign) and
  U+00FF lie outside the range of the embedding (U+039C and U+0178); the embedding leaves
  these two unchanged, which no ASCII pattern can tell apart. The sources never call
  \<^verbatim>\<open>toUpperCase\<close>; it is here to state case-insensitivity of the matcher.
\<close>

definition toUpperCaseUnit :: "char \<Rightarrow> string" where
  "toUpperCaseUnit c =
     (let n = (of_char c :: nat)
      in if n = 223 then ''SS''
         else if (97 \<le> n \<and> n \<le> 122) \<or> (224 \<le> n \<and> n \<le> 254 \<and> n \<noteq> 247)
         then [char_of (n - 32)] else [c])"

definition toUpperCase :: "string \<Rightarrow> string" where
  "toUpperCase s = concat (map toUpperCaseUnit s)"

text \<open>A label of ASCII code units only.\<close>

definition isAscii :: "string \<Rightarrow> bool" where
  "isAscii s = list_all (\<lambda>c. (of_char c :: nat) < 128) s"

text \<open>\<^verbatim>\<open>t.startsWith(p)\<close> and \<^verbatim>\<open>t.includes(p)\<close>: \<open>p\<close> occurs in \<open>t\<close> as a contiguous run.\<close>

fun js_startsWith :: "string \<Rightarrow> string \<Rightarrow> bool" where
  "js_startsWith t [] = True"
| "js_startsWith [] (p # ps) = False"
| "js_startsWith (c # cs) (p # ps) = (c = p \<and> js_startsWith cs ps)"

fun js_includes :: "string \<Rightarrow> string \<Rightarrow> bool" where
  "js_includes [] p = (p = [])"
| "js_includes (c # cs) p = (js_startsWith (c # cs) p \<or> js_includes cs p)"

subsection \<open>The lexicon of \<^verbatim>\<open>mappings.js\<close>\<close>

definition compostItems :: "string list" where
  "compostItems =
     [''onion'', ''red onion'', ''yellow onion'', ''white onion'', ''shallot'', ''garlic'',
      ''leek'',
      ''Granny Smith'', ''head cabbage'', ''bell pepper'', ''acorn squash'',
      ''butternut squash'', ''cucumber'', ''zucchini'', ''eggplant'', ''artichoke'',
      ''mushroom'', ''turnip'', ''kohlrabi'']"

definition plasticItems :: "string list" where
  "plasticItems =
     [''water bottle'', ''plastic bottle'', ''bottle'', ''pop bottle'', ''water jug'',
      ''flask'', ''pitcher'', ''carafe'', ''jug'', ''canteen'', ''thermos'',
      ''punching bag'', ''punch bag'', ''punching ball'', ''vacuum'', ''vase'', ''shaker'',
      ''cocktail shaker'', ''beer bottle'', ''wine bottle'', ''pill bottle'',
      ''water tower'', ''cylinder'', ''container'', ''tumbler'', ''mug'', ''cup'',
      ''barrel'', ''cask'', ''drum'']"

definition landfillItems :: "string list" where
  "landfillItems =
     [''ballpoint'', ''ballpoint pen'', ''ball pen'', ''pen'', ''fountain pen'', ''quill'',
      ''quill pen'', ''pencil'', ''mechanical pencil'', ''marker'', ''felt-tip'',
      ''highlighter'', ''writing implement'', ''stylus'', ''rule'', ''rubber eraser'',
      ''plunger'', ''plumber'' @ [CHR 0x27] @ ''s helper'', ''screwdriver'', ''hammer'',
      ''nail'', ''lipstick'', ''torch'', ''flashlight'', ''lighter'', ''candle'',
      ''missile'', ''projectile'', ''stick'', ''baton'', ''drumstick'', ''match'',
      ''matchstick'', ''stethoscope'', ''syringe'', ''thermometer'',
      ''sunglass'', ''sunglasses'', ''eyeglass'', ''eyeglasses'', ''glasses'',
      ''spectacles'', ''reading glasses'', ''eye glasses'', ''goggles'', ''loupe'',
      ''magnifying glass'', ''lens'', ''optical'', ''frame'', ''rimless'', ''bifocal'',
      ''monocle'']"

text \<open>
  The object literal \<^verbatim>\<open>materialMappings\<close>. \<^verbatim>\<open>Object.entries\<close> lists its keys in the order
  they are written, so the object is an association list in that order.
\<close>

definition materialMappings :: "(string \<times> string list) list" where
  "materialMappings =
     [(''compost'', compostItems),
      (''paper'', []),
      (''metal'', []),
      (''glass'', []),
      (''plastic'', plasticItems),
      (''landfill'', landfillItems)]"

subsection \<open>\<^verbatim>\<open>mapToRecycleBucket\<close>\<close>

record bucket_result =
  bucket :: string
  displayName :: string

text \<open>The keywords of the \<^verbatim>\<open>landfill\<close> branch that select the display name Glasses.\<close>

definition eyewearKeywords :: "string list" where
  "eyewearKeywords =
     [''sunglass'', ''sunglasses'', ''eyeglass'', ''eyeglasses'', ''glasses'',
      ''spectacles'', ''reading glasses'', ''goggles'', ''loupe'', ''lens'', ''optical'',
      ''frame'', ''monocle'', ''bifocal'']"

text \<open>The \<^verbatim>\<open>switch (category)\<close> of the function body, with its \<^verbatim>\<open>default\<close> branch.\<close>

definition switchCategory :: "string \<Rightarrow> string \<Rightarrow> bucket_result" where
  "switchCategory category t =
     (if category = ''compost'' then \<lparr>bucket = ''Compost'', displayName = ''Onion''\<rparr>
      else if category = ''paper'' then \<lparr>bucket = ''Paper / Cardboard'', displayName = ''Paper''\<rparr>
      else if category = ''metal'' then \<lparr>bucket = ''Metal'', displayName = ''Metal Item''\<rparr>
      else if category = ''glass'' then \<lparr>bucket = ''Glass'', displayName = ''Glass Item''\<rparr>
      else if category = ''plastic'' then \<lparr>bucket = ''Plastic'', displayName = ''Water Bottle''\<rparr>
      else if category = ''landfill'' then
        \<lparr>bucket = ''Landfill'',
         displayName = (if list_ex (\<lambda>g. js_includes t g) eyewearKeywords
                        then ''Glasses'' else ''Pen'')\<rparr>
      else \<lparr>bucket = ''Unknown'', displayName = ''Item''\<rparr>)"

text \<open>The test of the inner loop: exact match or partial match of one lexicon item.\<close>

definition itemMatches :: "string \<Rightarrow> string \<Rightarrow> bool" where
  "itemMatches t item = (t = toLowerCase item \<or> js_includes t (toLowerCase item))"

text \<open>The inner loop over the items of one category, returning at the first match.\<close>

fun scanItems :: "string \<Rightarrow> string \<Rightarrow> string list \<Rightarrow> bucket_result option" where
  "scanItems t category [] = None"
| "scanItems t category (item # items) =
     (if itemMatches t item then Some (switchCategory category t)
      else scanItems t category items)"

text \<open>The outer loop over the entries of the lexicon.\<close>

fun scanCategories :: "string \<Rightarrow> (string \<times> string list) list \<Rightarrow> bucket_result option" where
  "scanCategories t [] = None"
| "scanCategories t ((category, items) # rest) =
     (case scanItems t category items of
        Some r \<Rightarrow> Some r
      | None \<Rightarrow> scanCategories t rest)"

text \<open>
  The argument of \<^verbatim>\<open>mapToRecycleBucket\<close>: a string, or one of the absent values
  \<^verbatim>\<open>null\<close> and \<^verbatim>\<open>undefined\<close>. \<^verbatim>\<open>label || ""\<close> replaces a falsy argument (the absent
  values and the empty string) by the empty string.
\<close>

datatype js_label = JNull | JUndefined | JString string

fun orEmptyString :: "js_label \<Rightarrow> string" where
  "orEmptyString JNull = []"
| "orEmptyString JUndefined = []"
| "orEmptyString (JString s) = (if s = [] then [] else s)"

text \<open>The function itself; \<^verbatim>\<open>null\<close> is \<open>None\<close>.\<close>

definition mapToRecycleBucket :: "js_label \<Rightarrow> bucket_result option" where
  "mapToRecycleBucket label =
     scanCategories (toLowerCase (orEmptyString label)) materialMappings"

subsection \<open>Temporal smoothing: the rolling detection history\<close>

definition HISTORY_SIZE :: nat where
  "HISTORY_SIZE = 5"

definition MIN_FREQUENCY :: nat where
  "MIN_FREQUENCY = 2"

text \<open>
  \<^verbatim>\<open>detectionHistory.push(displayName)\<close>, then one \<^verbatim>\<open>shift()\<close> when the array has become
  longer than \<^verbatim>\<open>HISTORY_SIZE\<close>.
\<close>

definition pushHistory :: "string list \<Rightarrow> string \<Rightarrow> string list" where
  "pushHistory history name =
     (let pushed = history @ [name]
      in if length pushed > HISTORY_SIZE then tl pushed else pushed)"

text \<open>
  The object \<^verbatim>\<open>freq\<close> of \<^verbatim>\<open>getMostFrequent\<close>, as an association list in the order in which
  the keys were created: \<^verbatim>\<open>freq[item] = (freq[item] || 0) + 1\<close> increments an entry in place
  or appends a new entry with count 1.

  The association list is what the object is for keys that are ordinary property names.
  A JavaScript object lists keys that are array indices (\<^verbatim>\<open>"0"\<close>, \<^verbatim>\<open>"12"\<close>) before all
  others, and reads a key such as \<^verbatim>\<open>"constructor"\<close> from \<^verbatim>\<open>Object.prototype\<close>; neither is
  modelled. \<open>plainName\<close> describes names free of both effects (and not empty, so also truthy);
  every display name the matcher produces is one.
\<close>

fun bumpFreq :: "(string \<times> nat) list \<Rightarrow> string \<Rightarrow> (string \<times> nat) list" where
  "bumpFreq [] item = [(item, 1)]"
| "bumpFreq ((k, n) # rest) item =
     (if k = item then (k, n + 1) # rest else (k, n) # bumpFreq rest item)"

definition freqTable :: "string list \<Rightarrow> (string \<times> nat) list" where
  "freqTable arr = foldl bumpFreq [] arr"

definition objectPrototypeKeys :: "string list" where
  "objectPrototypeKeys =
     [''constructor'', ''toString'', ''toLocaleString'', ''valueOf'', ''hasOwnProperty'',
      ''isPrototypeOf'', ''propertyIsEnumerable'', ''__proto__'', ''__defineGetter__'',
      ''__defineSetter__'', ''__lookupGetter__'', ''__lookupSetter__'']"

definition isDigit :: "char \<Rightarrow> bool" where
  "isDigit c = (48 \<le> (of_char c :: nat) \<and> (of_char c :: nat) \<le> 57)"

definition plainName :: "string \<Rightarrow> bool" where
  "plainName s = (list_ex (\<lambda>c. \<not> isDigit c) s \<and> s \<notin> set objectPrototypeKeys)"

text \<open>
  \<^verbatim>\<open>getMostFrequent\<close>: the entries are sorted by descending count with the stable
  \<^verbatim>\<open>Array.prototype.sort\<close> (\<open>sort_key\<close> is a stable insertion sort), and the first entry is
  returned, \<^verbatim>\<open>[null, 0]\<close> when there is none.
\<close>

definition getMostFrequent :: "string list \<Rightarrow> string option \<times> nat" where
  "getMostFrequent arr =
     (if arr = [] then (None, 0)
      else (case sort_key (\<lambda>e. - int (snd e)) (freqTable arr) of
              [] \<Rightarrow> (None, 0)
            | e # _ \<Rightarrow> (Some (fst e), snd e)))"

text \<open>Truthiness of a value that is a string or \<^verbatim>\<open>null\<close>.\<close>

fun truthy :: "string option \<Rightarrow> bool" where
  "truthy None = False"
| "truthy (Some s) = (s \<noteq> [])"

text \<open>
  The condition \<^verbatim>\<open>freq >= MIN_FREQUENCY && stableName\<close> under which the loop shows the
  stable detection.
\<close>

definition confirmed :: "string list \<Rightarrow> bool" where
  "confirmed history =
     (case getMostFrequent history of
        (stableName, freq) \<Rightarrow> freq \<ge> MIN_FREQUENCY \<and> truthy stableName)"

subsection \<open>\<^verbatim>\<open>validateAndScoreDetection\<close>\<close>

text \<open>
  The result is \<^verbatim>\<open>null\<close> (\<open>Rejected\<close>) or a number (\<open>Score\<close>). The width and height of the
  canvas are non-negative integers. With a canvas of area zero the quotient \<^verbatim>\<open>sizeRatio\<close> is
  an infinity, which the size test rejects, or, for a box of area zero, NaN, which passes
  the size test and makes the rest of the arithmetic leave the finite numbers: that last
  case is the result \<open>Degenerate\<close>.
\<close>

datatype score_result = Rejected | Score real | Degenerate

type_synonym bbox = "real \<times> real \<times> real \<times> real"

definition validateAndScoreDetection :: "nat \<Rightarrow> nat \<Rightarrow> bbox \<Rightarrow> real \<Rightarrow> score_result" where
  "validateAndScoreDetection canvasW canvasH box score =
     (case box of (x, y, w, h) \<Rightarrow>
        let frameArea = real canvasW * real canvasH;
            bboxArea = w * h
        in if frameArea = 0 then (if bboxArea = 0 then Degenerate else Rejected)
           else
             let sizeRatio = bboxArea / frameArea
             in if sizeRatio < 0.02 \<or> sizeRatio > 0.85 then Rejected
                else
                  let cx = x + w / 2;
                      cy = y + h / 2;
                      dx = (cx - real canvasW / 2) / (real canvasW / 2);
                      dy = (cy - real canvasH / 2) / (real canvasH / 2);
                      centerDist = sqrt (dx * dx + dy * dy) / sqrt 2;
                      centerBoost = (1 - centerDist) * 0.2;
                      sizeBoost = (if sizeRatio \<ge> 0.1 \<and> sizeRatio \<le> 0.5 then 0.1 else 0);
                      boostedScore = score * (1 + centerBoost + sizeBoost)
                  in Score (min boostedScore 1.0))"

subsection \<open>The document\<close>

text \<open>The glyphs of \<^verbatim>\<open>categoryConfig\<close>, of \<^verbatim>\<open>tips\<close> and of the scanning state.\<close>

datatype glyph =
  NoGlyph | FallenLeaf | Package | CannedFood | CorkBottle | LotionBottle | Wastebasket
  | MagnifyingGlass | Bullseye | StraightRuler | LightBulb | CheckMark

datatype confidence_tier = Low | Medium | High

text \<open>Text of the detection line: the em dash placeholder, or a string.\<close>

datatype hud_text = EmDash | Text string

text \<open>The arguments of the last \<^verbatim>\<open>drawCircleBox\<close> call stand for what is on the canvas.\<close>

record circle_box =
  boxX :: real
  boxY :: real
  boxW :: real
  boxH :: real
  boxLabel :: string
  boxScore :: real

text \<open>
  The elements the code writes. \<open>categoryIconClass\<close> is the class put after
  \<^verbatim>\<open>category-icon\<close>. \<open>confidencePercent\<close> is the number in both the width of
  \<^verbatim>\<open>confidenceFill\<close> and the text of \<^verbatim>\<open>confidenceValue\<close>; \<open>confidenceTier\<close> is which of the
  classes low, medium, high \<^verbatim>\<open>confidenceFill\<close> carries; \<open>overlay\<close> is \<open>None\<close> after
  \<^verbatim>\<open>clearRect\<close>.
\<close>

record dom =
  tipIcon :: glyph
  tipText :: string
  tipsBannerSuccess :: bool
  confidencePercent :: int
  confidenceTier :: "confidence_tier option"
  categoryIcon :: glyph
  categoryIconClass :: string
  hudCardCategory :: string
  categoryValue :: string
  detectionText :: hud_text
  detectionDotInactive :: bool
  targetZoneDetected :: bool
  overlay :: "circle_box option"

text \<open>\<^verbatim>\<open>categoryConfig\<close>: icon, class and key of each bucket.\<close>

definition categoryConfig :: "(string \<times> glyph \<times> string \<times> string) list" where
  "categoryConfig =
     [(''Compost'', FallenLeaf, ''compost'', ''compost''),
      (''Paper / Cardboard'', Package, ''paper'', ''paper''),
      (''Metal'', CannedFood, ''metal'', ''metal''),
      (''Glass'', CorkBottle, ''glass'', ''glass''),
      (''Plastic'', LotionBottle, ''plastic'', ''plastic''),
      (''Landfill / Unknown'', Wastebasket, ''unknown'', ''unknown'')]"

text \<open>
  \<^verbatim>\<open>objectName.split(",")[0].split("(")[0].trim()\<close>. The white space of the range of the
  embedding is U+0009 to U+000D, the space and the no-break space U+00A0.
\<close>

definition isWhiteSpace :: "char \<Rightarrow> bool" where
  "isWhiteSpace c =
     (let n = (of_char c :: nat) in (9 \<le> n \<and> n \<le> 13) \<or> n = 32 \<or> n = 160)"

definition trim :: "string \<Rightarrow> string" where
  "trim s = rev (dropWhile isWhiteSpace (rev (dropWhile isWhiteSpace s)))"

definition cleanName :: "string \<Rightarrow> string" where
  "cleanName objectName =
     trim (takeWhile (\<lambda>c. c \<noteq> CHR ''('') (takeWhile (\<lambda>c. c \<noteq> CHR '','') objectName))"

definition updateCategoryUI :: "string option \<Rightarrow> string option \<Rightarrow> dom \<Rightarrow> dom" where
  "updateCategoryUI bucketArg objectName d =
     (case bucketArg of
        None \<Rightarrow>
          d\<lparr>categoryIcon := MagnifyingGlass, categoryIconClass := ''unknown'',
            hudCardCategory := ''unknown'', categoryValue := ''Scanning...'',
            detectionText := EmDash, detectionDotInactive := True\<rparr>
      | Some b \<Rightarrow>
          (case (case map_of categoryConfig b of
                   Some config \<Rightarrow> config
                 | None \<Rightarrow> (Wastebasket, ''unknown'', ''unknown'')) of
             (icon, cls, key) \<Rightarrow>
               let d1 = d\<lparr>categoryIcon := icon, categoryIconClass := cls,
                          hudCardCategory := key, categoryValue := b\<rparr>
               in (case objectName of
                     Some name \<Rightarrow>
                       if name \<noteq> []
                       then d1\<lparr>detectionText := Text (cleanName name),
                               detectionDotInactive := False\<rparr>
                       else d1\<lparr>detectionText := Text ''Scanning...'',
                               detectionDotInactive := True\<rparr>
                   | None \<Rightarrow>
                       d1\<lparr>detectionText := Text ''Scanning...'',
                          detectionDotInactive := True\<rparr>)))"

text \<open>The table \<^verbatim>\<open>tips\<close> and \<^verbatim>\<open>updateTip\<close>.\<close>

datatype tip_key = NoObject | TooSmall | LowConfidence | Success

fun tips :: "tip_key \<Rightarrow> glyph \<times> string" where
  "tips NoObject = (Bullseye, ''Place an object in the center'')"
| "tips TooSmall = (StraightRuler, ''Move closer to the object'')"
| "tips LowConfidence = (LightBulb, ''Try better lighting or plain background'')"
| "tips Success = (CheckMark, ''Object detected!'')"

definition updateTip :: "tip_key \<Rightarrow> string option \<Rightarrow> dom \<Rightarrow> dom" where
  "updateTip tipKey objectName d =
     (case tips tipKey of
        (icon, txt) \<Rightarrow>
          d\<lparr>tipIcon := icon,
            tipText := (if tipKey = Success \<and> truthy objectName
                        then ''Detected: '' @ cleanName (the objectName) else txt),
            tipsBannerSuccess := (tipKey = Success)\<rparr>)"

text \<open>\<^verbatim>\<open>Math.round\<close>: the nearest integer, a half rounded up.\<close>

definition mathRound :: "real \<Rightarrow> int" where
  "mathRound x = \<lfloor>x + 1 / 2\<rfloor>"

definition updateConfidence :: "real \<Rightarrow> dom \<Rightarrow> dom" where
  "updateConfidence score d =
     (let boostedScore = min (score * 3) 1.0;
          percent = min (mathRound (boostedScore * 100)) 100
      in d\<lparr>confidencePercent := percent,
           confidenceTier :=
             Some (if percent < 40 then Low else if percent < 70 then Medium else High)\<rparr>)"

definition drawCircleBox :: "real \<Rightarrow> real \<Rightarrow> real \<Rightarrow> real \<Rightarrow> string \<Rightarrow> real \<Rightarrow> dom \<Rightarrow> dom" where
  "drawCircleBox x y w h label score d =
     d\<lparr>overlay := Some \<lparr>boxX = x, boxY = y, boxW = w, boxH = h,
                          boxLabel = label, boxScore = score\<rparr>\<rparr>"

subsection \<open>The detection loop\<close>

record prediction =
  className :: string
  probability :: real

record app =
  running :: bool
  mobileNetLoaded :: bool
  canvasWidth :: nat
  canvasHeight :: nat
  detectionHistory :: "string list"
  noDetectionFrames :: nat
  lowConfidenceFrames :: nat
  document :: dom

text \<open>
  The square the loop draws around a recognised item: centred, with side 0.7 times the
  shorter side of the canvas.
\<close>

definition defaultRegion :: "nat \<Rightarrow> nat \<Rightarrow> bbox" where
  "defaultRegion canvasW canvasH =
     (let size = min (real canvasW) (real canvasH) * 0.7;
          x = (real canvasW - size) / 2;
          y = (real canvasH - size) / 2
      in (x, y, size, size))"

text \<open>The body of \<^verbatim>\<open>if (result !== null && pred.probability > 0.05)\<close>.\<close>

definition acceptPrediction :: "prediction \<Rightarrow> bucket_result \<Rightarrow> app \<Rightarrow> app" where
  "acceptPrediction pred result st =
     (let finalScore = probability pred;
          history = pushHistory (detectionHistory st) (displayName result);
          d1 = (case defaultRegion (canvasWidth st) (canvasHeight st) of
                  (x, y, w, h) \<Rightarrow>
                    drawCircleBox x y w h (displayName result) finalScore (document st));
          d2 = updateConfidence finalScore d1;
          d3 = (if finalScore < 0.15 then updateTip LowConfidence None d2
                else updateTip Success (Some (displayName result)) d2);
          d4 = (case getMostFrequent history of
                  (stableName, freq) \<Rightarrow>
                    if freq \<ge> MIN_FREQUENCY \<and> truthy stableName
                    then updateCategoryUI (Some (bucket result)) stableName
                           (d3\<lparr>targetZoneDetected := True\<rparr>)
                    else d3)
      in st\<lparr>noDetectionFrames := 0, detectionHistory := history, document := d4\<rparr>)"

text \<open>
  The \<^verbatim>\<open>for\<close> loop over the predictions, left by \<^verbatim>\<open>break\<close> at the first accepted one. The
  result is the flag \<^verbatim>\<open>matched\<close> and the state.
\<close>

fun scanPredictions :: "prediction list \<Rightarrow> app \<Rightarrow> bool \<times> app" where
  "scanPredictions [] st = (False, st)"
| "scanPredictions (pred # preds) st =
     (case mapToRecycleBucket (JString (className pred)) of
        Some result \<Rightarrow>
          if probability pred > 0.05 then (True, acceptPrediction pred result st)
          else scanPredictions preds st
      | None \<Rightarrow> scanPredictions preds st)"

text \<open>The test under which the loop accepts a prediction.\<close>

definition accepted :: "prediction \<Rightarrow> bool" where
  "accepted pred =
     (mapToRecycleBucket (JString (className pred)) \<noteq> None \<and> probability pred > 0.05)"

text \<open>The body of \<^verbatim>\<open>if (!matched)\<close>.\<close>

definition noMatch :: "prediction \<Rightarrow> app \<Rightarrow> app" where
  "noMatch topPred st =
     (let d1 = (document st)\<lparr>overlay := None, targetZoneDetected := False,
                              tipText := ''Seeing: '' @ className topPred,
                              tipIcon := MagnifyingGlass\<rparr>;
          d2 = updateCategoryUI None None d1;
          d3 = updateConfidence 0 d2
      in st\<lparr>noDetectionFrames := noDetectionFrames st + 1, document := d3\<rparr>)"

text \<open>What the loop does with the predictions of one frame.\<close>

definition processPredictions :: "prediction list \<Rightarrow> app \<Rightarrow> app" where
  "processPredictions predictions st =
     (case predictions of
        [] \<Rightarrow> st
      | topPred # _ \<Rightarrow>
          (case scanPredictions (take 3 predictions) st of
             (matched, st') \<Rightarrow> if \<not> matched then noMatch topPred st' else st'))"

text \<open>
  One call of \<^verbatim>\<open>loop\<close>: the frame gives the ready state of the video and what
  \<^verbatim>\<open>mobileNetModel.classify\<close> does, return predictions or throw. A thrown error is caught
  and logged, and the state is as before. Scheduling the next call is not modelled.
\<close>

datatype classification = ClassifyThrows | Predictions "prediction list"

record frame =
  readyState :: nat
  classify :: classification

definition loop :: "frame \<Rightarrow> app \<Rightarrow> app" where
  "loop fr st =
     (if \<not> running st then st
      else if mobileNetLoaded st \<and> readyState fr \<ge> 2 then
        (case classify fr of
           ClassifyThrows \<Rightarrow> st
         | Predictions predictions \<Rightarrow> processPredictions predictions st)
      else st)"

text \<open>
  The state when the script has been loaded, and the state after the start button's handler
  has run without error on a video of the given size. The page is not among the sources:
  \<open>blankDom\<close> is a document whose elements are empty, and the canvas has the size of a
  canvas element without attributes until the handler sets it to the size of the video.
\<close>

definition blankDom :: dom where
  "blankDom =
     \<lparr>tipIcon = NoGlyph, tipText = [], tipsBannerSuccess = False, confidencePercent = 0,
      confidenceTier = None, categoryIcon = NoGlyph, categoryIconClass = [],
      hudCardCategory = [], categoryValue = [], detectionText = Text [],
      detectionDotInactive = False, targetZoneDetected = False, overlay = None\<rparr>"

definition initialApp :: app where
  "initialApp =
     \<lparr>running = False, mobileNetLoaded = False, canvasWidth = 300, canvasHeight = 150,
      detectionHistory = [], noDetectionFrames = 0, lowConfidenceFrames = 0,
      document = blankDom\<rparr>"

definition startSession :: "nat \<Rightarrow> nat \<Rightarrow> app \<Rightarrow> app" where
  "startSession videoWidth videoHeight st =
     st\<lparr>canvasWidth := videoWidth, canvasHeight := videoHeight, mobileNetLoaded := True,
        running := True,
        document := updateTip NoObject None (updateCategoryUI None None (document st))\<rparr>"

section \<open>Properties of the matcher\<close>

subsection \<open>Substring search\<close>

lemma js_startsWith_iff: "js_startsWith t p \<longleftrightarrow> (\<exists>s. t = p @ s)"
  by (induction t p rule: js_startsWith.induct) auto

lemma js_includes_iff: "js_includes t p \<longleftrightarrow> (\<exists>a b. t = a @ p @ b)"
proof (induction t)
  case Nil
  then show ?case by auto
next
  case (Cons c cs)
  show ?case
  proof
    assume "js_includes (c # cs) p"
    then consider "js_startsWith (c # cs) p" | "js_includes cs p" by auto
    then show "\<exists>a b. c # cs = a @ p @ b"
    proof cases
      case 1
      then obtain s where "c # cs = p @ s" by (auto simp: js_startsWith_iff)
      then have "c # cs = [] @ p @ s" by simp
      then show ?thesis by blast
    next
      case 2
      then obtain a b where "cs = a @ p @ b" using Cons.IH by blast
      then have "c # cs = (c # a) @ p @ b" by simp
      then show ?thesis by blast
    qed
  next
    assume "\<exists>a b. c # cs = a @ p @ b"
    then obtain a b where ab: "c # cs = a @ p @ b" by blast
    show "js_includes (c # cs) p"
    proof (cases a)
      case Nil
      with ab have "js_startsWith (c # cs) p" by (auto simp: js_startsWith_iff)
      then show ?thesis by simp
    next
      case (Cons a0 as)
      with ab have "cs = as @ p @ b" by simp
      then have "js_includes cs p" using Cons.IH by blast
      then show ?thesis by simp
    qed
  qed
qed

lemma js_includes_self: "js_includes t t"
proof -
  have "t = [] @ t @ []" by simp
  then show ?thesis unfolding js_includes_iff by blast
qed

text \<open>The exact-match disjunct of the test adds nothing to the partial match.\<close>

lemma itemMatches_includes: "itemMatches t item \<longleftrightarrow> js_includes t (toLowerCase item)"
  by (auto simp: itemMatches_def js_includes_self)

subsection \<open>The two loops\<close>

lemma scanItems_eq:
  "scanItems t c items =
     (if list_ex (itemMatches t) items then Some (switchCategory c t) else None)"
  by (induction items) auto

lemma scanCategories_None:
  "scanCategories t m = None \<longleftrightarrow> \<not> list_ex (\<lambda>(c, its). list_ex (itemMatches t) its) m"
  by (induction m) (auto simp: scanItems_eq split: if_splits)

lemma scanCategories_skip:
  "\<not> list_ex (\<lambda>(c, its). list_ex (itemMatches t) its) pre \<Longrightarrow>
   scanCategories t (pre @ rest) = scanCategories t rest"
  by (induction pre) (auto simp: scanItems_eq)

lemma scanCategories_first:
  "\<not> list_ex (\<lambda>(c, its). list_ex (itemMatches t) its) pre \<Longrightarrow>
   list_ex (itemMatches t) items \<Longrightarrow>
   scanCategories t (pre @ (c, items) # post) = Some (switchCategory c t)"
  by (simp add: scanCategories_skip scanItems_eq)

lemma scanCategories_Some:
  "scanCategories t m = Some r \<Longrightarrow>
   \<exists>c items. (c, items) \<in> set m \<and> items \<noteq> [] \<and> r = switchCategory c t"
proof (induction m)
  case Nil
  then show ?case by simp
next
  case (Cons e m)
  obtain c items where e: "e = (c, items)" by (cases e)
  show ?case
  proof (cases "list_ex (itemMatches t) items")
    case True
    then have "items \<noteq> []" by auto
    moreover from True Cons.prems e have "r = switchCategory c t"
      by (simp add: scanItems_eq)
    ultimately show ?thesis using e by auto
  next
    case False
    with Cons.prems e have "scanCategories t m = Some r" by (simp add: scanItems_eq)
    with Cons.IH show ?thesis by auto
  qed
qed

subsection \<open>Case\<close>

lemma lower_upper_unit:
  "(of_char c :: nat) < 128 \<Longrightarrow> map toLowerCaseUnit (toUpperCaseUnit c) = [toLowerCaseUnit c]"
  by (auto simp: toLowerCaseUnit_def toUpperCaseUnit_def Let_def)

lemma lower_upper_ascii: "isAscii L \<Longrightarrow> toLowerCase (toUpperCase L) = toLowerCase L"
  by (induction L) (auto simp: isAscii_def toLowerCase_def toUpperCase_def lower_upper_unit)

text \<open>
  C3, as the code has it. First part: when the lower-cased label matches an item of the
  lexicon entry \<open>(category, items)\<close> and no item of an entry declared before it, the matcher
  returns the result of that category (first matching pair wins, in declaration order).
  Second part: for a label of ASCII code units the matcher gives the same result on the
  label and on its upper-case form.
\<close>

theorem mapToRecycleBucket_first_match_ascii_case:
  "(materialMappings = pre @ (category, items) # post \<and>
    list_ex (itemMatches (toLowerCase L)) items \<and>
    \<not> list_ex (\<lambda>(c, its). list_ex (itemMatches (toLowerCase L)) its) pre
    \<longrightarrow> mapToRecycleBucket (JString L) = Some (switchCategory category (toLowerCase L)))
   \<and> (isAscii L \<longrightarrow>
        mapToRecycleBucket (JString (toUpperCase L)) = mapToRecycleBucket (JString L))"
proof (intro conjI impI)
  assume a: "materialMappings = pre @ (category, items) # post \<and>
    list_ex (itemMatches (toLowerCase L)) items \<and>
    \<not> list_ex (\<lambda>(c, its). list_ex (itemMatches (toLowerCase L)) its) pre"
  then have "scanCategories (toLowerCase L) (pre @ (category, items) # post)
      = Some (switchCategory category (toLowerCase L))"
    by (intro scanCategories_first) simp_all
  with a show "mapToRecycleBucket (JString L) = Some (switchCategory category (toLowerCase L))"
    by (simp add: mapToRecycleBucket_def)
next
  assume "isAscii L"
  then show "mapToRecycleBucket (JString (toUpperCase L)) = mapToRecycleBucket (JString L)"
    by (simp add: mapToRecycleBucket_def lower_upper_ascii)
qed

theorem mapToRecycleBucket_first_match_ascii_case_witness:
  "mapToRecycleBucket (JString ''Water Bottle'')
     = Some \<lparr>bucket = ''Plastic'', displayName = ''Water Bottle''\<rparr>
   \<and> mapToRecycleBucket (JString (toUpperCase ''Water Bottle''))
     = mapToRecycleBucket (JString ''Water Bottle'')"
proof -
  have h1: "materialMappings =
      [(''compost'', compostItems), (''paper'', []), (''metal'', []), (''glass'', [])]
      @ (''plastic'', plasticItems) # [(''landfill'', landfillItems)]"
    by (simp add: materialMappings_def)
  have h2: "list_ex (itemMatches (toLowerCase ''Water Bottle'')) plasticItems"
    by code_simp
  have h3: "\<not> list_ex (\<lambda>(c, its). list_ex (itemMatches (toLowerCase ''Water Bottle'')) its)
      [(''compost'', compostItems), (''paper'', []), (''metal'', []), (''glass'', [])]"
    by code_simp
  have h4: "isAscii ''Water Bottle''"
    by code_simp
  have h5: "switchCategory ''plastic'' (toLowerCase ''Water Bottle'')
      = \<lparr>bucket = ''Plastic'', displayName = ''Water Bottle''\<rparr>"
    by (simp add: switchCategory_def)
  show ?thesis
    using mapToRecycleBucket_first_match_ascii_case
        [of "[(''compost'', compostItems), (''paper'', []), (''metal'', []), (''glass'', [])]"
          "''plastic''" plasticItems "[(''landfill'', landfillItems)]" "''Water Bottle''"]
      h1 h2 h3 h4 h5 by simp
qed

text \<open>
  C3 as stated fails beyond ASCII: the label \<^verbatim>\<open>sungla\<close> followed by the sharp s U+00DF
  matches nothing, and its upper-case form \<^verbatim>\<open>SUNGLASS\<close> is matched as Landfill.
\<close>

theorem mapToRecycleBucket_sharp_s_counterexample:
  "mapToRecycleBucket (JString (''sungla'' @ [CHR 0xDF])) = None \<and>
   mapToRecycleBucket (JString (toUpperCase (''sungla'' @ [CHR 0xDF])))
     = Some \<lparr>bucket = ''Landfill'', displayName = ''Glasses''\<rparr>"
  by code_simp

subsection \<open>Categories without patterns\<close>

lemma switchCategory_reachable:
  "c \<in> {''compost'', ''plastic'', ''landfill''} \<Longrightarrow>
   bucket (switchCategory c t) \<in> {''Compost'', ''Plastic'', ''Landfill''} \<and>
   displayName (switchCategory c t) \<in> {''Onion'', ''Water Bottle'', ''Glasses'', ''Pen''}"
  by (auto simp: switchCategory_def)

lemma mapToRecycleBucket_reachable:
  assumes "mapToRecycleBucket label = Some r"
  shows "bucket r \<in> {''Compost'', ''Plastic'', ''Landfill''} \<and>
         displayName r \<in> {''Onion'', ''Water Bottle'', ''Glasses'', ''Pen''}"
proof -
  from assms obtain c items where
    ci: "(c, items) \<in> set materialMappings" "items \<noteq> []"
      "r = switchCategory c (toLowerCase (orEmptyString label))"
    unfolding mapToRecycleBucket_def by (blast dest: scanCategories_Some)
  from ci(1,2) have "c \<in> {''compost'', ''plastic'', ''landfill''}"
    by (auto simp: materialMappings_def)
  with ci(3) show ?thesis using switchCategory_reachable by blast
qed

text \<open>
  C9: the pattern lists of paper, metal and glass are empty, and every result of the matcher
  has bucket Compost, Plastic or Landfill and display name Onion, Water Bottle, Glasses or
  Pen: never the buckets or the display names of the paper, metal and glass branches.
\<close>

theorem mapToRecycleBucket_never_paper_metal_glass:
  "map_of materialMappings ''paper'' = Some [] \<and>
   map_of materialMappings ''metal'' = Some [] \<and>
   map_of materialMappings ''glass'' = Some [] \<and>
   (mapToRecycleBucket label = Some r \<longrightarrow>
      bucket r \<in> {''Compost'', ''Plastic'', ''Landfill''} \<and>
      bucket r \<notin> {''Paper / Cardboard'', ''Metal'', ''Glass''} \<and>
      displayName r \<in> {''Onion'', ''Water Bottle'', ''Glasses'', ''Pen''} \<and>
      displayName r \<notin> {''Paper'', ''Metal Item'', ''Glass Item''})"
  using mapToRecycleBucket_reachable [of label r]
  by (auto simp: materialMappings_def)

theorem mapToRecycleBucket_never_paper_metal_glass_witness:
  "mapToRecycleBucket (JString ''paper cup'')
     = Some \<lparr>bucket = ''Plastic'', displayName = ''Water Bottle''\<rparr> \<and>
   bucket \<lparr>bucket = ''Plastic'', displayName = ''Water Bottle''\<rparr>
     \<notin> {''Paper / Cardboard'', ''Metal'', ''Glass''}"
proof -
  have h: "mapToRecycleBucket (JString ''paper cup'')
      = Some \<lparr>bucket = ''Plastic'', displayName = ''Water Bottle''\<rparr>"
    by code_simp
  show ?thesis
    using mapToRecycleBucket_never_paper_metal_glass
        [of "JString ''paper cup''" "\<lparr>bucket = ''Plastic'', displayName = ''Water Bottle''\<rparr>"] h
    by simp
qed

subsection \<open>Absent labels\<close>

text \<open>
  C10: for \<^verbatim>\<open>null\<close>, \<^verbatim>\<open>undefined\<close> and the empty string the label is coerced to the empty
  string and the matcher returns \<^verbatim>\<open>null\<close>; no pattern of the lexicon is the empty string.
\<close>

theorem mapToRecycleBucket_absent_label:
  "orEmptyString JNull = [] \<and> mapToRecycleBucket JNull = None \<and>
   orEmptyString JUndefined = [] \<and> mapToRecycleBucket JUndefined = None \<and>
   orEmptyString (JString []) = [] \<and> mapToRecycleBucket (JString []) = None \<and>
   [] \<notin> set (concat (map snd materialMappings))"
  by (simp add: mapToRecycleBucket_def materialMappings_def compostItems_def plasticItems_def
      landfillItems_def itemMatches_def toLowerCase_def)

section \<open>Properties of the confidence display and of the region score\<close>

subsection \<open>\<^verbatim>\<open>updateConfidence\<close>\<close>




subsection \<open>\<^verbatim>\<open>validateAndScoreDetection\<close>\<close>

text \<open>
  C7: on a canvas of positive width and height the result is \<^verbatim>\<open>null\<close> when the size ratio
  is below 0.02 or above 0.85, whatever the raw score, and otherwise a number, at most 1.
\<close>

theorem validateAndScoreDetection_null_iff_size:
  assumes "0 < cw" "0 < ch"
  shows "((w * h) / (real cw * real ch) < 0.02 \<or> (w * h) / (real cw * real ch) > 0.85
            \<longrightarrow> validateAndScoreDetection cw ch (x, y, w, h) s = Rejected) \<and>
         (\<not> ((w * h) / (real cw * real ch) < 0.02 \<or> (w * h) / (real cw * real ch) > 0.85)
            \<longrightarrow> (\<exists>v. validateAndScoreDetection cw ch (x, y, w, h) s = Score v \<and> v \<le> 1))"
  using assms by (auto simp: validateAndScoreDetection_def Let_def)

theorem validateAndScoreDetection_null_iff_size_witness:
  "validateAndScoreDetection 100 100 (0, 0, 10, 10) 0.5 = Rejected \<and>
   (\<exists>v. validateAndScoreDetection 100 100 (0, 0, 50, 50) 0.5 = Score v \<and> v \<le> 1)"
  using validateAndScoreDetection_null_iff_size [of 100 100 10 10 0 0 "0.5"]
    validateAndScoreDetection_null_iff_size [of 100 100 50 50 0 0 "0.5"]
  by simp

lemma corner_distance:
  "dx = 1 \<or> dx = -1 \<Longrightarrow> dy = 1 \<or> dy = -1 \<Longrightarrow> sqrt (dx * dx + dy * dy) / sqrt 2 = (1::real)"
  by auto

text \<open>The score of a box that passes the size test, in terms of its ratio and distance.\<close>

lemma validateAndScoreDetection_accepts:
  assumes "0 < cw" "0 < ch"
    and r: "w * h / (real cw * real ch) = r" and "0.02 \<le> r" "r \<le> 0.85"
    and d: "sqrt ((x + w / 2 - real cw / 2) / (real cw / 2)
                    * ((x + w / 2 - real cw / 2) / (real cw / 2))
                  + (y + h / 2 - real ch / 2) / (real ch / 2)
                    * ((y + h / 2 - real ch / 2) / (real ch / 2))) / sqrt 2 = cd"
  shows "validateAndScoreDetection cw ch (x, y, w, h) s =
     Score (min (s * (1 + (1 - cd) * 0.2 + (if 0.1 \<le> r \<and> r \<le> 0.5 then 0.1 else 0))) 1.0)"
proof -
  have fa: "real cw * real ch \<noteq> 0" using assms(1,2) by simp
  have nr: "\<not> (r < 0.02 \<or> r > 0.85)" using assms(4,5) by simp
  show ?thesis
    unfolding validateAndScoreDetection_def Let_def prod.case r d
    using fa nr by (simp only: if_False)
qed

text \<open>
  C8: with raw score 0.5 and a box of 0.3 times the area of the canvas, the box centred on
  the canvas scores 0.65 and the box of the same size centred on any corner \<open>(px, py)\<close> of
  the canvas scores 0.55, which is less.
\<close>

theorem validateAndScoreDetection_center_beats_corner:
  assumes "0 < cw" "0 < ch" "w * h = 0.3 * (real cw * real ch)"
    and "px = 0 \<or> px = real cw" "py = 0 \<or> py = real ch"
  shows "validateAndScoreDetection cw ch (real cw / 2 - w / 2, real ch / 2 - h / 2, w, h) 0.5
           = Score 0.65 \<and>
         validateAndScoreDetection cw ch (px - w / 2, py - h / 2, w, h) 0.5 = Score 0.55 \<and>
         (0.55::real) < 0.65"
proof -
  from assms have ratio: "w * h / (real cw * real ch) = 0.3" by simp
  have dx: "(px - w / 2 + w / 2 - real cw / 2) / (real cw / 2) = 1
      \<or> (px - w / 2 + w / 2 - real cw / 2) / (real cw / 2) = -1"
    using assms by auto
  have dy: "(py - h / 2 + h / 2 - real ch / 2) / (real ch / 2) = 1
      \<or> (py - h / 2 + h / 2 - real ch / 2) / (real ch / 2) = -1"
    using assms by auto
  have "validateAndScoreDetection cw ch (real cw / 2 - w / 2, real ch / 2 - h / 2, w, h) 0.5 =
      Score (min (0.5 * (1 + (1 - 0) * 0.2
        + (if 0.1 \<le> (0.3::real) \<and> (0.3::real) \<le> 0.5 then 0.1 else 0))) 1.0)"
    using assms(1,2) ratio by (intro validateAndScoreDetection_accepts) simp_all
  then have c: "validateAndScoreDetection cw ch
      (real cw / 2 - w / 2, real ch / 2 - h / 2, w, h) 0.5 = Score 0.65"
    by simp
  have "validateAndScoreDetection cw ch (px - w / 2, py - h / 2, w, h) 0.5 =
      Score (min (0.5 * (1 + (1 - 1) * 0.2
        + (if 0.1 \<le> (0.3::real) \<and> (0.3::real) \<le> 0.5 then 0.1 else 0))) 1.0)"
    using assms(1,2) ratio corner_distance [OF dx dy]
    by (intro validateAndScoreDetection_accepts) simp_all
  then have k: "validateAndScoreDetection cw ch (px - w / 2, py - h / 2, w, h) 0.5 = Score 0.55"
    by simp
  from c k show ?thesis by simp
qed

theorem validateAndScoreDetection_center_beats_corner_witness:
  "validateAndScoreDetection 1000 1000 (200, 250, 600, 500) 0.5 = Score 0.65 \<and>
   validateAndScoreDetection 1000 1000 (-300, -250, 600, 500) 0.5 = Score 0.55 \<and>
   (0.55::real) < 0.65"
  using validateAndScoreDetection_center_beats_corner [of 1000 1000 600 500 0 0] by simp

section \<open>Properties of the temporal smoothing\<close>

subsection \<open>The history as a bounded queue\<close>

lemma pushHistory_full: "length h = HISTORY_SIZE \<Longrightarrow> pushHistory h x = tl h @ [x]"
  by (cases h) (auto simp: pushHistory_def HISTORY_SIZE_def)

lemma pushHistory_room: "length h < HISTORY_SIZE \<Longrightarrow> pushHistory h x = h @ [x]"
  by (simp add: pushHistory_def)

lemma pushHistory_drop:
  assumes "length h \<le> HISTORY_SIZE"
  shows "pushHistory h x = drop (Suc (length h) - HISTORY_SIZE) (h @ [x])"
proof (cases "length h = HISTORY_SIZE")
  case True
  then have "Suc (length h) - HISTORY_SIZE = Suc 0" by simp
  moreover have "pushHistory h x = tl (h @ [x])" using True by (simp add: pushHistory_def)
  ultimately show ?thesis by (simp only: drop_Suc drop_0)
next
  case False
  with assms have "length h < HISTORY_SIZE" by simp
  then show ?thesis by (simp add: pushHistory_def)
qed

lemma drop_append_le: "n \<le> length xs \<Longrightarrow> drop n xs @ ys = drop n (xs @ ys)"
  by simp

lemma pushHistory_length: "length h \<le> HISTORY_SIZE \<Longrightarrow> length (pushHistory h x) \<le> HISTORY_SIZE"
  by (auto simp: pushHistory_def Let_def)

lemma foldl_pushHistory_drop:
  "length h \<le> HISTORY_SIZE \<Longrightarrow>
   foldl pushHistory h obs = drop (length (h @ obs) - HISTORY_SIZE) (h @ obs)"
proof (induction obs arbitrary: h)
  case Nil
  then show ?case by simp
next
  case (Cons x obs)
  define k where "k = Suc (length h) - HISTORY_SIZE"
  let ?p = "pushHistory h x"
  have p: "?p = drop k (h @ [x])"
    unfolding k_def using Cons.prems by (rule pushHistory_drop)
  have k: "k \<le> Suc (length h)" by (simp add: k_def)
  have len: "length ?p \<le> HISTORY_SIZE" using Cons.prems by (rule pushHistory_length)
  have app: "?p @ obs = drop k (h @ x # obs)"
    using k drop_append_le [of k "h @ [x]" obs] by (simp only: p append_assoc append_Cons append_Nil length_append list.size)
  have "foldl pushHistory h (x # obs) = foldl pushHistory ?p obs" by simp
  also have "\<dots> = drop (length (?p @ obs) - HISTORY_SIZE) (?p @ obs)"
    using len by (rule Cons.IH)
  also have "\<dots> = drop (length (?p @ obs) - HISTORY_SIZE + k) (h @ x # obs)"
    by (simp only: app drop_drop)
  also have "length (?p @ obs) - HISTORY_SIZE + k = length (h @ x # obs) - HISTORY_SIZE"
  proof -
    have lp: "length (?p @ obs) = Suc (length h) - k + length obs"
      by (simp only: p length_append length_drop list.size)
    have lh: "length (h @ x # obs) = Suc (length h) + length obs" by simp
    show ?thesis unfolding lp lh k_def using Cons.prems by arith
  qed
  finally show ?case .
qed

lemma foldl_pushHistory_length:
  "length h \<le> HISTORY_SIZE \<Longrightarrow> length (foldl pushHistory h obs) \<le> HISTORY_SIZE"
  by (simp add: foldl_pushHistory_drop)

lemma foldl_pushHistory_recent:
  "length h \<le> HISTORY_SIZE \<Longrightarrow> length recent = HISTORY_SIZE \<Longrightarrow>
   foldl pushHistory h (older @ recent) = recent"
  by (simp add: foldl_pushHistory_drop)

subsection \<open>The frequency table and the mode\<close>

lemma map_of_bumpFreq:
  "map_of (bumpFreq T k) =
     (map_of T)(k \<mapsto> (case map_of T k of None \<Rightarrow> 1 | Some n \<Rightarrow> n + 1))"
  by (induction T k rule: bumpFreq.induct) (auto simp: fun_eq_iff)

lemma keys_bumpFreq: "set (map fst (bumpFreq T k)) = insert k (set (map fst T))"
  by (induction T k rule: bumpFreq.induct) auto

lemma distinct_bumpFreq: "distinct (map fst T) \<Longrightarrow> distinct (map fst (bumpFreq T k))"
proof (induction T k rule: bumpFreq.induct)
  case (1 item)
  then show ?case by simp
next
  case (2 k n rest item)
  then show ?case using keys_bumpFreq [of rest item] by auto
qed

lemma distinct_foldl_bumpFreq:
  "distinct (map fst T) \<Longrightarrow> distinct (map fst (foldl bumpFreq T arr))"
  by (induction arr arbitrary: T) (auto simp: distinct_bumpFreq)

lemma map_of_foldl_bumpFreq:
  "map_of (foldl bumpFreq T arr) k =
     (case map_of T k of
        None \<Rightarrow> if k \<in> set arr then Some (count_list arr k) else None
      | Some n \<Rightarrow> Some (n + count_list arr k))"
  by (induction arr arbitrary: T) (auto simp: map_of_bumpFreq split: option.splits)

lemma map_of_freqTable:
  "map_of (freqTable arr) k = (if k \<in> set arr then Some (count_list arr k) else None)"
  by (simp add: freqTable_def map_of_foldl_bumpFreq)

lemma distinct_freqTable: "distinct (map fst (freqTable arr))"
  by (simp add: freqTable_def distinct_foldl_bumpFreq)

lemma set_freqTable: "set (freqTable arr) = (\<lambda>k. (k, count_list arr k)) ` set arr"
proof -
  have "(k, n) \<in> set (freqTable arr) \<longleftrightarrow> k \<in> set arr \<and> n = count_list arr k" for k n
    using map_of_eq_Some_iff [OF distinct_freqTable, of arr k n]
    by (auto simp: map_of_freqTable split: if_splits)
  then show ?thesis by auto
qed

lemma sort_key_head_least:
  assumes "sort_key f xs = e # es"
  shows "e \<in> set xs \<and> (\<forall>y\<in>set xs. f e \<le> f y)"
proof -
  have st: "set xs = set (e # es)" using assms by (metis set_sort)
  have "sorted (map f (e # es))" using assms by (metis sorted_sort_key)
  then have "\<forall>y\<in>set (e # es). f e \<le> f y" by auto
  with st show ?thesis by simp
qed

lemma getMostFrequent_mode:
  assumes "arr \<noteq> []"
  shows "\<exists>x\<in>set arr. getMostFrequent arr = (Some x, count_list arr x) \<and>
           (\<forall>y\<in>set arr. count_list arr y \<le> count_list arr x)"
proof -
  let ?f = "\<lambda>e::string \<times> nat. - int (snd e)"
  let ?T = "freqTable arr"
  from assms have T: "?T \<noteq> []" using set_freqTable [of arr] by auto
  then have ne: "sort_key ?f ?T \<noteq> []" by (metis set_empty set_sort)
  then obtain e es where s: "sort_key ?f ?T = e # es" by (cases "sort_key ?f ?T") auto
  from sort_key_head_least [OF s]
  have e: "e \<in> set ?T" and least: "\<forall>y\<in>set ?T. ?f e \<le> ?f y" by auto
  from e obtain x where x: "x \<in> set arr" "e = (x, count_list arr x)"
    by (auto simp: set_freqTable)
  have "count_list arr y \<le> count_list arr x" if "y \<in> set arr" for y
  proof -
    from that have "(y, count_list arr y) \<in> set ?T" by (auto simp: set_freqTable)
    with least x show ?thesis by fastforce
  qed
  moreover have "getMostFrequent arr = (Some x, count_list arr x)"
    using assms s x by (simp add: getMostFrequent_def)
  ultimately show ?thesis using x by blast
qed

text \<open>The display names of the matcher are plain names.\<close>

lemma switchCategory_plainName: "plainName (displayName (switchCategory c t))"
  by (simp add: switchCategory_def plainName_def isDigit_def objectPrototypeKeys_def)

lemma mapToRecycleBucket_plainName:
  "mapToRecycleBucket label = Some r \<Longrightarrow> plainName (displayName r)"
  unfolding mapToRecycleBucket_def
  by (auto dest!: scanCategories_Some simp: switchCategory_plainName)

lemma plainName_truthy: "plainName s \<Longrightarrow> truthy (Some s)"
  by (auto simp: plainName_def)

lemma confirmed_if_repeated:
  assumes "MIN_FREQUENCY \<le> count_list h name" and "list_all plainName h"
  shows "confirmed h"
proof -
  from assms(1) have "name \<in> set h" 
    by (metis MIN_FREQUENCY_def count_list_0_iff not_numeral_le_zero)
  then have "h \<noteq> []" by auto
  from getMostFrequent_mode [OF this] obtain x where
    x: "x \<in> set h" "getMostFrequent h = (Some x, count_list h x)"
      "\<forall>y\<in>set h. count_list h y \<le> count_list h x" by blast
  from x(3) \<open>name \<in> set h\<close> assms(1) have "MIN_FREQUENCY \<le> count_list h x" by fastforce
  moreover from x(1) assms(2) have "plainName x" by (simp add: list_all_iff)
  then have "truthy (Some x)" by (rule plainName_truthy)
  ultimately show ?thesis using x(2) by (simp add: confirmed_def)
qed

lemma count_list_distinct: "distinct h \<Longrightarrow> x \<in> set h \<Longrightarrow> count_list h x = 1"
  by (induction h) (auto simp: count_list_0_iff)

lemma not_confirmed_if_distinct:
  assumes "distinct h"
  shows "\<not> confirmed h"
proof (cases "h = []")
  case True
  then show ?thesis by (simp add: confirmed_def getMostFrequent_def MIN_FREQUENCY_def)
next
  case False
  from getMostFrequent_mode [OF this] obtain x where
    x: "x \<in> set h" "getMostFrequent h = (Some x, count_list h x)" by blast
  with assms have "getMostFrequent h = (Some x, 1)" by (simp add: count_list_distinct)
  then show ?thesis by (simp add: confirmed_def MIN_FREQUENCY_def)
qed

subsection \<open>Effects of the functions that write the document\<close>

lemma updateCategoryUI_keeps:
  "tipIcon (updateCategoryUI b n d) = tipIcon d"
  "tipText (updateCategoryUI b n d) = tipText d"
  "tipsBannerSuccess (updateCategoryUI b n d) = tipsBannerSuccess d"
  "confidencePercent (updateCategoryUI b n d) = confidencePercent d"
  "confidenceTier (updateCategoryUI b n d) = confidenceTier d"
  "overlay (updateCategoryUI b n d) = overlay d"
  "targetZoneDetected (updateCategoryUI b n d) = targetZoneDetected d"
  by (simp_all add: updateCategoryUI_def Let_def split: option.splits prod.splits)

lemma updateCategoryUI_scanning:
  "categoryValue (updateCategoryUI None n d) = ''Scanning...''"
  "hudCardCategory (updateCategoryUI None n d) = ''unknown''"
  "categoryIcon (updateCategoryUI None n d) = MagnifyingGlass"
  "detectionText (updateCategoryUI None n d) = EmDash"
  "detectionDotInactive (updateCategoryUI None n d)"
  by (simp_all add: updateCategoryUI_def)

lemma updateConfidence_keeps:
  "tipIcon (updateConfidence s d) = tipIcon d"
  "tipText (updateConfidence s d) = tipText d"
  "tipsBannerSuccess (updateConfidence s d) = tipsBannerSuccess d"
  "overlay (updateConfidence s d) = overlay d"
  "targetZoneDetected (updateConfidence s d) = targetZoneDetected d"
  "categoryValue (updateConfidence s d) = categoryValue d"
  "hudCardCategory (updateConfidence s d) = hudCardCategory d"
  "categoryIcon (updateConfidence s d) = categoryIcon d"
  "detectionText (updateConfidence s d) = detectionText d"
  "detectionDotInactive (updateConfidence s d) = detectionDotInactive d"
  by (simp_all add: updateConfidence_def Let_def)

lemma updateConfidence_percent:
  "confidencePercent (updateConfidence s d) = min (mathRound (min (s * 3) 1.0 * 100)) 100"
  by (simp add: updateConfidence_def Let_def)

lemma updateTip_fields:
  "tipIcon (updateTip k n d) = fst (tips k)"
  "tipText (updateTip k n d) =
     (if k = Success \<and> truthy n then ''Detected: '' @ cleanName (the n) else snd (tips k))"
  "tipsBannerSuccess (updateTip k n d) = (k = Success)"
  "confidencePercent (updateTip k n d) = confidencePercent d"
  "confidenceTier (updateTip k n d) = confidenceTier d"
  "overlay (updateTip k n d) = overlay d"
  "targetZoneDetected (updateTip k n d) = targetZoneDetected d"
  by (simp_all add: updateTip_def split: prod.splits)

lemma scanPredictions_none:
  "list_all (\<lambda>q. \<not> accepted q) ps \<Longrightarrow> scanPredictions ps st = (False, st)"
  by (induction ps) (auto simp: accepted_def split: option.splits)

lemma scanPredictions_first:
  assumes "list_all (\<lambda>q. \<not> accepted q) pre"
    and "mapToRecycleBucket (JString (className p)) = Some r" and "probability p > 0.05"
  shows "scanPredictions (pre @ p # post) st = (True, acceptPrediction p r st)"
  using assms by (induction pre) (auto simp: accepted_def split: option.splits)

lemma acceptPrediction_history:
  "detectionHistory (acceptPrediction p r st) = pushHistory (detectionHistory st) (displayName r)"
  "noDetectionFrames (acceptPrediction p r st) = 0"
  by (simp_all add: acceptPrediction_def Let_def)

lemma acceptPrediction_document:
  "confidencePercent (document (acceptPrediction p r st))
     = min (mathRound (min (probability p * 3) 1.0 * 100)) 100"
  "tipIcon (document (acceptPrediction p r st))
     = fst (tips (if probability p < 0.15 then LowConfidence else Success))"
  "tipText (document (acceptPrediction p r st))
     = (if probability p < 0.15 then snd (tips LowConfidence)
        else if displayName r \<noteq> [] then ''Detected: '' @ cleanName (displayName r)
        else snd (tips Success))"
  "tipsBannerSuccess (document (acceptPrediction p r st)) = (\<not> probability p < 0.15)"
  "overlay (document (acceptPrediction p r st))
     = (case defaultRegion (canvasWidth st) (canvasHeight st) of
          (x, y, w, h) \<Rightarrow> Some \<lparr>boxX = x, boxY = y, boxW = w, boxH = h,
                               boxLabel = displayName r, boxScore = probability p\<rparr>)"
  by (simp_all add: acceptPrediction_def Let_def updateCategoryUI_keeps updateTip_fields
      updateConfidence_keeps updateConfidence_percent drawCircleBox_def
      split: prod.splits)

lemma acceptPrediction_detected:
  "targetZoneDetected (document (acceptPrediction p r st)) =
     (confirmed (pushHistory (detectionHistory st) (displayName r))
      \<or> targetZoneDetected (document st))"
  by (auto simp: acceptPrediction_def Let_def confirmed_def updateCategoryUI_keeps
      updateTip_fields updateConfidence_keeps drawCircleBox_def split: prod.splits)

lemma noMatch_fields:
  "detectionHistory (noMatch t st) = detectionHistory st"
  "noDetectionFrames (noMatch t st) = noDetectionFrames st + 1"
  "categoryValue (document (noMatch t st)) = ''Scanning...''"
  "hudCardCategory (document (noMatch t st)) = ''unknown''"
  "categoryIcon (document (noMatch t st)) = MagnifyingGlass"
  "detectionText (document (noMatch t st)) = EmDash"
  "detectionDotInactive (document (noMatch t st))"
  "\<not> targetZoneDetected (document (noMatch t st))"
  "overlay (document (noMatch t st)) = None"
  "tipText (document (noMatch t st)) = ''Seeing: '' @ className t"
  "tipIcon (document (noMatch t st)) = MagnifyingGlass"
  "confidencePercent (document (noMatch t st)) = 0"
  "confidenceTier (document (noMatch t st)) = Some Low"
  by (simp_all add: noMatch_def Let_def updateConfidence_keeps updateCategoryUI_keeps
      updateCategoryUI_scanning updateConfidence_def mathRound_def)

lemma loop_active:
  "running st \<Longrightarrow> mobileNetLoaded st \<Longrightarrow> readyState fr \<ge> 2 \<Longrightarrow>
   classify fr = Predictions preds \<Longrightarrow> loop fr st = processPredictions preds st"
  by (simp add: loop_def)

subsection \<open>The history under the loop\<close>

lemma scanPredictions_history_length:
  "length (detectionHistory st) \<le> HISTORY_SIZE \<Longrightarrow>
   length (detectionHistory (snd (scanPredictions ps st))) \<le> HISTORY_SIZE"
  by (induction ps) (auto simp: acceptPrediction_history pushHistory_length split: option.splits)

lemma loop_history_length:
  assumes "length (detectionHistory st) \<le> HISTORY_SIZE"
  shows "length (detectionHistory (loop fr st)) \<le> HISTORY_SIZE"
proof -
  have "length (detectionHistory (processPredictions ps st)) \<le> HISTORY_SIZE" for ps
  proof (cases ps)
    case Nil
    with assms show ?thesis by (simp add: processPredictions_def)
  next
    case (Cons t ts)
    obtain m st' where sc: "scanPredictions (take 3 ps) st = (m, st')"
      by (cases "scanPredictions (take 3 ps) st")
    with scanPredictions_history_length [OF assms, of "take 3 ps"]
    have "length (detectionHistory st') \<le> HISTORY_SIZE" by simp
    with sc Cons show ?thesis by (auto simp: processPredictions_def noMatch_fields)
  qed
  with assms show ?thesis by (auto simp: loop_def split: classification.splits)
qed

lemma run_history_length:
  "length (detectionHistory st) \<le> HISTORY_SIZE \<Longrightarrow>
   length (detectionHistory (foldl (\<lambda>s fr. loop fr s) st frames)) \<le> HISTORY_SIZE"
  by (induction frames arbitrary: st) (auto simp: loop_history_length)

subsection \<open>Concrete labels\<close>

lemma car_unmatched: "mapToRecycleBucket (JString ''car'') = None"
  by code_simp

lemma water_bottle_matched:
  "mapToRecycleBucket (JString ''water bottle'')
     = Some \<lparr>bucket = ''Plastic'', displayName = ''Water Bottle''\<rparr>"
  by code_simp

lemma pop_bottle_matched:
  "mapToRecycleBucket (JString ''pop bottle'')
     = Some \<lparr>bucket = ''Plastic'', displayName = ''Water Bottle''\<rparr>"
  by code_simp

lemma started_active:
  "running (startSession vw vh initialApp)" "mobileNetLoaded (startSession vw vh initialApp)"
  "detectionHistory (startSession vw vh initialApp) = []"
  "noDetectionFrames (startSession vw vh initialApp) = 0"
  "canvasWidth (startSession vw vh initialApp) = vw"
  "canvasHeight (startSession vw vh initialApp) = vh"
  by (simp_all add: startSession_def initialApp_def)

section \<open>The claims about the stabilizer and the loop\<close>

text \<open>
  C2: let the history be the result of appending the plain names \<open>obs\<close> to a history \<open>h0\<close>
  of at most \<^verbatim>\<open>HISTORY_SIZE\<close> plain names. If some name occurs at least
  \<^verbatim>\<open>MIN_FREQUENCY\<close> times among the last \<^verbatim>\<open>HISTORY_SIZE\<close> names appended, the condition
  under which the loop shows the stable detection holds; if \<open>obs\<close> consists of
  \<^verbatim>\<open>HISTORY_SIZE\<close> distinct names, it does not hold.
\<close>

theorem confirmed_repeated_or_distinct:
  "list_all plainName (h0 @ obs) \<and> length h0 \<le> HISTORY_SIZE \<longrightarrow>
     (MIN_FREQUENCY \<le> count_list (drop (length (h0 @ obs) - HISTORY_SIZE) (h0 @ obs)) name
        \<longrightarrow> confirmed (foldl pushHistory h0 obs)) \<and>
     (length obs = HISTORY_SIZE \<and> distinct obs \<longrightarrow> \<not> confirmed (foldl pushHistory h0 obs))"
proof (intro impI conjI)
  assume a: "list_all plainName (h0 @ obs) \<and> length h0 \<le> HISTORY_SIZE"
  then have h: "foldl pushHistory h0 obs = drop (length (h0 @ obs) - HISTORY_SIZE) (h0 @ obs)"
    by (simp add: foldl_pushHistory_drop)
  from a have pl: "list_all plainName (drop (length (h0 @ obs) - HISTORY_SIZE) (h0 @ obs))"
    unfolding list_all_iff by (meson in_set_dropD)
  {
    assume "MIN_FREQUENCY \<le> count_list (drop (length (h0 @ obs) - HISTORY_SIZE) (h0 @ obs)) name"
    then show "confirmed (foldl pushHistory h0 obs)"
      unfolding h using pl by (rule confirmed_if_repeated)
  }
  {
    assume d: "length obs = HISTORY_SIZE \<and> distinct obs"
    with a have "foldl pushHistory h0 obs = obs"
      using foldl_pushHistory_recent [of h0 obs "[]"] by simp
    with d show "\<not> confirmed (foldl pushHistory h0 obs)"
      by (simp add: not_confirmed_if_distinct)
  }
qed

theorem confirmed_repeated_or_distinct_witness:
  "confirmed (foldl pushHistory [] [''Onion'', ''Pen'', ''Onion'']) \<and>
   \<not> confirmed (foldl pushHistory [''Onion'']
        [''Onion'', ''Water Bottle'', ''Glasses'', ''Pen'', ''Item''])"
proof -
  have p1: "list_all plainName ([] @ [''Onion'', ''Pen'', ''Onion'']) \<and> length ([]::string list) \<le> HISTORY_SIZE"
    by (simp add: plainName_def isDigit_def objectPrototypeKeys_def HISTORY_SIZE_def)
  have c1: "MIN_FREQUENCY \<le> count_list (drop (length ([] @ [''Onion'', ''Pen'', ''Onion'']) - HISTORY_SIZE)
      ([] @ [''Onion'', ''Pen'', ''Onion''])) ''Onion''"
    by (simp add: MIN_FREQUENCY_def HISTORY_SIZE_def)
  have p2: "list_all plainName ([''Onion''] @ [''Onion'', ''Water Bottle'', ''Glasses'', ''Pen'', ''Item''])
      \<and> length [''Onion''] \<le> HISTORY_SIZE"
    by (simp add: plainName_def isDigit_def objectPrototypeKeys_def HISTORY_SIZE_def)
  have d2: "length [''Onion'', ''Water Bottle'', ''Glasses'', ''Pen'', ''Item''] = HISTORY_SIZE
      \<and> distinct [''Onion'', ''Water Bottle'', ''Glasses'', ''Pen'', ''Item'']"
    by (simp add: HISTORY_SIZE_def)
  show ?thesis
    using confirmed_repeated_or_distinct [of "[]" "[''Onion'', ''Pen'', ''Onion'']" "''Onion''"]
      confirmed_repeated_or_distinct [of "[''Onion'']" "[''Onion'', ''Water Bottle'', ''Glasses'', ''Pen'', ''Item'']" "''Onion''"]
      p1 c1 p2 d2 by blast
qed

text \<open>
  C4: \<^verbatim>\<open>HISTORY_SIZE\<close> is 5; appending to a full history drops exactly its oldest entry and
  appending to a shorter one drops nothing; the history never becomes longer than
  \<^verbatim>\<open>HISTORY_SIZE\<close>, under any sequence of appends and under any sequence of frames of a
  started session; and after appending \<open>older @ recent\<close> with \<open>recent\<close> of length
  \<^verbatim>\<open>HISTORY_SIZE\<close> the history is \<open>recent\<close>, so the mode is that of \<open>recent\<close>.
\<close>

theorem detectionHistory_fifo_capacity:
  "HISTORY_SIZE = 5 \<and>
   (length h = HISTORY_SIZE \<longrightarrow> pushHistory h x = tl h @ [x]) \<and>
   (length h < HISTORY_SIZE \<longrightarrow> pushHistory h x = h @ [x]) \<and>
   (length h \<le> HISTORY_SIZE \<longrightarrow> length (foldl pushHistory h obs) \<le> HISTORY_SIZE) \<and>
   length (detectionHistory
     (foldl (\<lambda>s fr. loop fr s) (startSession vw vh initialApp) frames)) \<le> HISTORY_SIZE \<and>
   (length h \<le> HISTORY_SIZE \<and> length recent = HISTORY_SIZE \<longrightarrow>
      foldl pushHistory h (older @ recent) = recent \<and>
      getMostFrequent (foldl pushHistory h (older @ recent)) = getMostFrequent recent)"
proof -
  have "length (detectionHistory (startSession vw vh initialApp)) \<le> HISTORY_SIZE"
    by (simp add: startSession_def initialApp_def)
  then have "length (detectionHistory
     (foldl (\<lambda>s fr. loop fr s) (startSession vw vh initialApp) frames)) \<le> HISTORY_SIZE"
    by (rule run_history_length)
  then show ?thesis
  proof (intro conjI impI)
    show "HISTORY_SIZE = 5" by (simp add: HISTORY_SIZE_def)
    show "pushHistory h x = tl h @ [x]" if "length h = HISTORY_SIZE"
      using that by (rule pushHistory_full)
    show "pushHistory h x = h @ [x]" if "length h < HISTORY_SIZE"
      using that by (rule pushHistory_room)
    show "length (foldl pushHistory h obs) \<le> HISTORY_SIZE" if "length h \<le> HISTORY_SIZE"
      using that by (rule foldl_pushHistory_length)
    assume a: "length h \<le> HISTORY_SIZE \<and> length recent = HISTORY_SIZE"
    then show r: "foldl pushHistory h (older @ recent) = recent"
      by (intro foldl_pushHistory_recent) simp_all
    show "getMostFrequent (foldl pushHistory h (older @ recent)) = getMostFrequent recent"
      by (simp only: r)
  qed
qed

theorem detectionHistory_fifo_capacity_witness:
  "pushHistory [''a'', ''b'', ''c'', ''d'', ''e''] ''f'' = [''b'', ''c'', ''d'', ''e'', ''f''] \<and>
   pushHistory [''a'', ''b''] ''c'' = [''a'', ''b'', ''c''] \<and>
   length (foldl pushHistory [''a'', ''b''] [''c'', ''d'', ''e'', ''f'', ''g'', ''h'']) \<le> HISTORY_SIZE \<and>
   foldl pushHistory [''a'', ''b''] ([''c''] @ [''d'', ''e'', ''f'', ''g'', ''h''])
     = [''d'', ''e'', ''f'', ''g'', ''h'']"
proof -
  have l5: "length [''a'', ''b'', ''c'', ''d'', ''e''] = HISTORY_SIZE"
    by (simp add: HISTORY_SIZE_def)
  have l2: "length [''a'', ''b''] < HISTORY_SIZE" "length [''a'', ''b''] \<le> HISTORY_SIZE"
    by (simp_all add: HISTORY_SIZE_def)
  have r5: "length [''d'', ''e'', ''f'', ''g'', ''h''] = HISTORY_SIZE"
    by (simp add: HISTORY_SIZE_def)
  from detectionHistory_fifo_capacity [of "[''a'', ''b'', ''c'', ''d'', ''e'']" "''f''"] l5
  have a: "pushHistory [''a'', ''b'', ''c'', ''d'', ''e''] ''f''
      = tl [''a'', ''b'', ''c'', ''d'', ''e''] @ [''f'']"
    by blast
  note r = detectionHistory_fifo_capacity [of "[''a'', ''b'']" "''c''" "[''c'', ''d'', ''e'', ''f'', ''g'', ''h'']" 0 0 "[]"
      "[''d'', ''e'', ''f'', ''g'', ''h'']" "[''c'']"]
  from r l2 have b: "pushHistory [''a'', ''b''] ''c'' = [''a'', ''b''] @ [''c'']"
    by blast
  from r l2 have c: "length (foldl pushHistory [''a'', ''b'']
      [''c'', ''d'', ''e'', ''f'', ''g'', ''h'']) \<le> HISTORY_SIZE"
    by blast
  from r l2 r5 have d: "foldl pushHistory [''a'', ''b'']
      ([''c''] @ [''d'', ''e'', ''f'', ''g'', ''h'']) = [''d'', ''e'', ''f'', ''g'', ''h'']"
    by blast
  from a b c d show ?thesis by simp
qed

text \<open>
  C1, as the code has it: in a running session with the model loaded and the video ready,
  when \<open>p\<close> is the first of the top three predictions that the matcher recognises with a
  probability above 0.05, the frame is processed as \<open>acceptPrediction p r\<close> and later
  predictions are not looked at. The display name is appended to the history, the counter of
  frames without detection is reset, the square of \<open>defaultRegion\<close> is drawn with the display
  name and the raw probability, the confidence shown is computed from the raw probability
  (\<open>validateAndScoreDetection\<close> is not called), and the tip is that of \<^verbatim>\<open>lowConfidence\<close> when
  the raw probability is below 0.15 and that of \<^verbatim>\<open>success\<close>, naming the item, otherwise.
\<close>

theorem loop_first_accepted_prediction:
  assumes "running st" "mobileNetLoaded st" "readyState fr \<ge> 2"
    and "classify fr = Predictions preds"
    and "take 3 preds = pre @ p # post" and "list_all (\<lambda>q. \<not> accepted q) pre"
    and "mapToRecycleBucket (JString (className p)) = Some r" and "probability p > 0.05"
  shows "loop fr st = acceptPrediction p r st \<and>
    detectionHistory (loop fr st) = pushHistory (detectionHistory st) (displayName r) \<and>
    noDetectionFrames (loop fr st) = 0 \<and>
    confidencePercent (document (loop fr st))
      = min (mathRound (min (probability p * 3) 1.0 * 100)) 100 \<and>
    tipIcon (document (loop fr st))
      = fst (tips (if probability p < 0.15 then LowConfidence else Success)) \<and>
    tipText (document (loop fr st))
      = (if probability p < 0.15 then snd (tips LowConfidence)
         else ''Detected: '' @ cleanName (displayName r)) \<and>
    tipsBannerSuccess (document (loop fr st)) = (\<not> probability p < 0.15) \<and>
    overlay (document (loop fr st))
      = (case defaultRegion (canvasWidth st) (canvasHeight st) of
           (x, y, w, h) \<Rightarrow> Some \<lparr>boxX = x, boxY = y, boxW = w, boxH = h,
                                boxLabel = displayName r, boxScore = probability p\<rparr>)"
proof -
  from assms(5) have ne: "preds \<noteq> []" by auto
  then obtain t ts where preds: "preds = t # ts" by (cases preds) auto
  have scan: "scanPredictions (take 3 preds) st = (True, acceptPrediction p r st)"
    unfolding assms(5) using assms(6,7,8) by (rule scanPredictions_first)
  have "loop fr st = processPredictions preds st"
    using assms(1-4) by (rule loop_active)
  also have "\<dots> = acceptPrediction p r st"
    using scan unfolding preds by (simp add: processPredictions_def)
  finally have eq: "loop fr st = acceptPrediction p r st" .
  from assms(7) have "displayName r \<noteq> []"
    using mapToRecycleBucket_reachable [of "JString (className p)" r] by auto
  then show ?thesis
    unfolding eq by (simp add: acceptPrediction_history acceptPrediction_document)
qed

theorem loop_first_accepted_prediction_witness:
  "detectionHistory
     (loop \<lparr>readyState = 4, classify = Predictions
         [\<lparr>className = ''car'', probability = 0.9\<rparr>,
          \<lparr>className = ''water bottle'', probability = 0.03\<rparr>,
          \<lparr>className = ''pop bottle'', probability = 0.2\<rparr>,
          \<lparr>className = ''ballpoint'', probability = 0.5\<rparr>]\<rparr>
       (startSession 1280 720 initialApp)) = [''Water Bottle''] \<and>
   confidencePercent (document
     (loop \<lparr>readyState = 4, classify = Predictions
         [\<lparr>className = ''car'', probability = 0.9\<rparr>,
          \<lparr>className = ''water bottle'', probability = 0.03\<rparr>,
          \<lparr>className = ''pop bottle'', probability = 0.2\<rparr>,
          \<lparr>className = ''ballpoint'', probability = 0.5\<rparr>]\<rparr>
       (startSession 1280 720 initialApp))) = 60 \<and>
   tipText (document
     (loop \<lparr>readyState = 4, classify = Predictions
         [\<lparr>className = ''car'', probability = 0.9\<rparr>,
          \<lparr>className = ''water bottle'', probability = 0.03\<rparr>,
          \<lparr>className = ''pop bottle'', probability = 0.2\<rparr>,
          \<lparr>className = ''ballpoint'', probability = 0.5\<rparr>]\<rparr>
       (startSession 1280 720 initialApp))) = ''Detected: Water Bottle''"
proof -
  let ?preds = "[\<lparr>className = ''car'', probability = 0.9\<rparr>,
          \<lparr>className = ''water bottle'', probability = 0.03\<rparr>,
          \<lparr>className = ''pop bottle'', probability = 0.2\<rparr>,
          \<lparr>className = ''ballpoint'', probability = 0.5::real\<rparr>]"
  let ?fr = "\<lparr>readyState = 4, classify = Predictions ?preds\<rparr>"
  let ?st = "startSession 1280 720 initialApp"
  have h1: "running ?st" "mobileNetLoaded ?st" by (simp_all add: started_active)
  have h3: "readyState ?fr \<ge> 2" "classify ?fr = Predictions ?preds" by simp_all
  have h5: "take 3 ?preds = [\<lparr>className = ''car'', probability = 0.9\<rparr>,
          \<lparr>className = ''water bottle'', probability = 0.03\<rparr>]
        @ \<lparr>className = ''pop bottle'', probability = 0.2\<rparr> # []"
    by (simp add: numeral_3_eq_3)
  have h6: "list_all (\<lambda>q. \<not> accepted q) [\<lparr>className = ''car'', probability = 0.9\<rparr>,
          \<lparr>className = ''water bottle'', probability = 0.03::real\<rparr>]"
    by (simp add: accepted_def car_unmatched)
  have h7: "mapToRecycleBucket (JString (className \<lparr>className = ''pop bottle'', probability = 0.2::real\<rparr>))
      = Some \<lparr>bucket = ''Plastic'', displayName = ''Water Bottle''\<rparr>"
    by (simp add: pop_bottle_matched)
  have h8: "probability \<lparr>className = ''pop bottle'', probability = 0.2::real\<rparr> > 0.05" by simp
  have cn: "cleanName ''Water Bottle'' = ''Water Bottle''"
    by (simp add: cleanName_def trim_def isWhiteSpace_def)
  let ?p = "\<lparr>className = ''pop bottle'', probability = 0.2::real\<rparr>"
  let ?r = "\<lparr>bucket = ''Plastic'', displayName = ''Water Bottle''\<rparr>"
  note r = loop_first_accepted_prediction [OF h1 h3 h5 h6 h7 h8]
  from r have a: "detectionHistory (loop ?fr ?st)
      = pushHistory (detectionHistory ?st) (displayName ?r)"
    by blast
  from r have b: "confidencePercent (document (loop ?fr ?st))
      = min (mathRound (min (probability ?p * 3) 1.0 * 100)) 100"
    by blast
  from r have c: "tipText (document (loop ?fr ?st))
      = (if probability ?p < 0.15 then snd (tips LowConfidence)
         else ''Detected: '' @ cleanName (displayName ?r))"
    by blast
  show ?thesis
    unfolding a b c using cn
    by (simp add: started_active pushHistory_def HISTORY_SIZE_def mathRound_def)
qed

text \<open>
  C1 as stated fails where it derives the displayed confidence from the region score: for
  the single prediction \<^verbatim>\<open>water bottle\<close> with probability 0.2 on a canvas of 1280 by 720
  the loop shows 60 percent, while the score of the default region is 0.26, which
  \<open>updateConfidence\<close> would show as 78 percent.
\<close>

theorem loop_confidence_from_raw_probability_counterexample:
  "confidencePercent (document
     (loop \<lparr>readyState = 4, classify = Predictions
         [\<lparr>className = ''water bottle'', probability = 0.2\<rparr>]\<rparr>
       (startSession 1280 720 initialApp))) = 60 \<and>
   validateAndScoreDetection 1280 720 (defaultRegion 1280 720) 0.2 = Score 0.26 \<and>
   confidencePercent (updateConfidence 0.26 blankDom) = 78"
proof -
  let ?p = "\<lparr>className = ''water bottle'', probability = 0.2::real\<rparr>"
  let ?fr = "\<lparr>readyState = 4, classify = Predictions [?p]\<rparr>"
  let ?st = "startSession 1280 720 initialApp"
  have "loop ?fr ?st = processPredictions [?p] ?st"
    by (intro loop_active) (simp_all add: started_active)
  also have "\<dots> = acceptPrediction ?p \<lparr>bucket = ''Plastic'', displayName = ''Water Bottle''\<rparr> ?st"
    by (simp add: processPredictions_def water_bottle_matched)
  finally have "confidencePercent (document (loop ?fr ?st)) = 60"
    by (simp add: acceptPrediction_document mathRound_def)
  moreover have "validateAndScoreDetection 1280 720 (defaultRegion 1280 720) 0.2 = Score 0.26"
    by (simp add: validateAndScoreDetection_def defaultRegion_def Let_def)
  moreover have "confidencePercent (updateConfidence 0.26 blankDom) = 78"
    by (simp add: updateConfidence_def Let_def mathRound_def)
  ultimately show ?thesis by simp
qed

text \<open>
  C5, as the code has it: in a running session with the model loaded and the video ready,
  when the prediction list is not empty and none of its first three predictions is accepted,
  the frame is processed as \<open>noMatch\<close> of the top prediction: the history is unchanged, the
  counter of frames without detection grows by one, the category display is in its
  scanning state, the target zone is not marked as detected, the confidence shown is 0
  percent with tier Low, and the tips banner shows the magnifying glass and the text
  \<^verbatim>\<open>Seeing: \<close> followed by the label of the top prediction.
\<close>

theorem loop_no_accepted_prediction:
  assumes "running st" "mobileNetLoaded st" "readyState fr \<ge> 2"
    and "classify fr = Predictions (topPred # others)"
    and "list_all (\<lambda>q. \<not> accepted q) (take 3 (topPred # others))"
  shows "loop fr st = noMatch topPred st \<and>
    detectionHistory (loop fr st) = detectionHistory st \<and>
    noDetectionFrames (loop fr st) = noDetectionFrames st + 1 \<and>
    categoryValue (document (loop fr st)) = ''Scanning...'' \<and>
    hudCardCategory (document (loop fr st)) = ''unknown'' \<and>
    detectionText (document (loop fr st)) = EmDash \<and>
    \<not> targetZoneDetected (document (loop fr st)) \<and>
    tipText (document (loop fr st)) = ''Seeing: '' @ className topPred \<and>
    tipIcon (document (loop fr st)) = MagnifyingGlass \<and>
    confidencePercent (document (loop fr st)) = 0 \<and>
    confidenceTier (document (loop fr st)) = Some Low"
proof -
  have scan: "scanPredictions (take 3 (topPred # others)) st = (False, st)"
    using assms(5) by (rule scanPredictions_none)
  have "loop fr st = processPredictions (topPred # others) st"
    using assms(1-4) by (rule loop_active)
  also have "\<dots> = noMatch topPred st"
    using scan by (simp add: processPredictions_def)
  finally have eq: "loop fr st = noMatch topPred st" .
  show ?thesis unfolding eq by (simp add: noMatch_fields)
qed

theorem loop_no_accepted_prediction_witness:
  "detectionHistory
     (loop \<lparr>readyState = 4, classify = Predictions [\<lparr>className = ''car'', probability = 0.9\<rparr>]\<rparr>
       (startSession 1280 720 initialApp)) = [] \<and>
   noDetectionFrames
     (loop \<lparr>readyState = 4, classify = Predictions [\<lparr>className = ''car'', probability = 0.9\<rparr>]\<rparr>
       (startSession 1280 720 initialApp)) = 1 \<and>
   categoryValue (document
     (loop \<lparr>readyState = 4, classify = Predictions [\<lparr>className = ''car'', probability = 0.9\<rparr>]\<rparr>
       (startSession 1280 720 initialApp))) = ''Scanning...'' \<and>
   tipText (document
     (loop \<lparr>readyState = 4, classify = Predictions [\<lparr>className = ''car'', probability = 0.9\<rparr>]\<rparr>
       (startSession 1280 720 initialApp))) = ''Seeing: car''"
proof -
  let ?p = "\<lparr>className = ''car'', probability = 0.9::real\<rparr>"
  let ?fr = "\<lparr>readyState = 4, classify = Predictions [?p]\<rparr>"
  let ?st = "startSession 1280 720 initialApp"
  have h1: "running ?st" "mobileNetLoaded ?st" by (simp_all add: started_active)
  have h3: "readyState ?fr \<ge> 2" "classify ?fr = Predictions (?p # [])" by simp_all
  have h5: "list_all (\<lambda>q. \<not> accepted q) (take 3 (?p # []))"
    by (simp add: accepted_def car_unmatched)
  note r = loop_no_accepted_prediction [OF h1 h3 h5]
  from r have a: "detectionHistory (loop ?fr ?st) = detectionHistory ?st" by blast
  from r have b: "noDetectionFrames (loop ?fr ?st) = noDetectionFrames ?st + 1" by blast
  from r have c: "categoryValue (document (loop ?fr ?st)) = ''Scanning...''" by blast
  from r have d: "tipText (document (loop ?fr ?st)) = ''Seeing: '' @ className ?p" by blast
  show ?thesis
    unfolding a b c d by (simp add: started_active)
qed

text \<open>
  C5 as stated fails at the tip: for the single prediction \<^verbatim>\<open>car\<close> with probability 0.9
  the banner shows \<^verbatim>\<open>Seeing: car\<close> with the magnifying glass, which is neither the text nor
  the icon of the entry \<^verbatim>\<open>noObject\<close> of \<^verbatim>\<open>tips\<close>.
\<close>

theorem loop_no_match_tip_counterexample:
  "tipText (document
     (loop \<lparr>readyState = 4, classify = Predictions [\<lparr>className = ''car'', probability = 0.9\<rparr>]\<rparr>
       (startSession 1280 720 initialApp))) = ''Seeing: car'' \<and>
   tipText (document
     (loop \<lparr>readyState = 4, classify = Predictions [\<lparr>className = ''car'', probability = 0.9\<rparr>]\<rparr>
       (startSession 1280 720 initialApp))) \<noteq> snd (tips NoObject) \<and>
   tipIcon (document
     (loop \<lparr>readyState = 4, classify = Predictions [\<lparr>className = ''car'', probability = 0.9\<rparr>]\<rparr>
       (startSession 1280 720 initialApp))) \<noteq> fst (tips NoObject)"
proof -
  let ?p = "\<lparr>className = ''car'', probability = 0.9::real\<rparr>"
  let ?fr = "\<lparr>readyState = 4, classify = Predictions [?p]\<rparr>"
  let ?st = "startSession 1280 720 initialApp"
  have "loop ?fr ?st = processPredictions [?p] ?st"
    by (intro loop_active) (simp_all add: started_active)
  also have "\<dots> = noMatch ?p ?st"
    by (simp add: processPredictions_def car_unmatched)
  finally show ?thesis
    by (simp add: noMatch_fields)
qed

end
